theory Spec2Isabelle
  imports Complex_Main "HOL-Library.Multiset"
begin

section \<open>Exceptions, JSON values and persisted objects\<close>

text \<open>
  The views of \<^verbatim>\<open>node.py\<close> signal failure by raising. A raise is a value of
  \<open>exn\<close>: \<open>HTTPError code data redirect_url\<close> is the framework's HTTP error (its
  \<open>data\<close> dictionary as an association list), the other constructors are the
  exceptions of the model layer and of Python itself that the views catch or let through.
\<close>

datatype exn =
    HTTPError nat "(string \<times> string) list" "string option"
  | ValueError
  | PermissionsError
  | NodeStateError string
  | NodeUpdateError string string
  | ZeroDivisionError
  | IndexError
  | AttributeError
  | DiskSavingModeError
  | ValidationValueError

definition BAD_REQUEST :: nat where
  "BAD_REQUEST = 400"

definition FORBIDDEN :: nat where
  "FORBIDDEN = 403"

text \<open>
  A JSON value of the request body. \<open>request.json.get(k)\<close> is \<open>None\<close> for an absent
  key, which is \<open>JNull\<close> here. \<open>truthy\<close> is Python's truth value of the decoded value.
\<close>

datatype json =
    JNull
  | JBool bool
  | JNum rat
  | JStr string
  | JList "json list"
  | JDict "(string \<times> json) list"

fun truthy :: "json \<Rightarrow> bool" where
  "truthy JNull = False"
| "truthy (JBool b) = b"
| "truthy (JNum x) = (x \<noteq> 0)"
| "truthy (JStr s) = (s \<noteq> [])"
| "truthy (JList xs) = (xs \<noteq> [])"
| "truthy (JDict kvs) = (kvs \<noteq> [])"

definition json_get :: "(string \<times> json) list \<Rightarrow> string \<Rightarrow> json" where
  "json_get d k = (case map_of d k of None \<Rightarrow> JNull | Some v \<Rightarrow> v)"

text \<open>
  An object loaded from the database: \<open>obj\<close> holds the attributes of the Python object,
  \<open>stored\<close> the record last written. \<open>node.save()\<close> writes the attributes through.
\<close>

record 'a loaded =
  obj :: 'a
  stored :: 'a

definition save :: "'a loaded \<Rightarrow> 'a loaded" where
  "save l = l\<lparr>stored := obj l\<rparr>"

text \<open>
  The attributes of a \<^verbatim>\<open>Node\<close> that the views below read or write. \<open>node_id\<close> is
  \<^verbatim>\<open>_id\<close> (the primary key), \<open>contributors\<close> holds user keys, \<open>node_ids\<close> the keys of
  the node's children, \<open>parent_id\<close> the key of its parent if it has one.
\<close>

record node =
  node_id :: string
  title :: string
  category :: string
  description :: string
  is_public :: bool
  is_deleted :: bool
  is_collection :: bool
  comment_level :: "string option"
  contributors :: "string list"
  node_ids :: "string list"
  parent_id :: "string option"

section \<open>Comment settings\<close>

text \<open>
  \<^verbatim>\<open>configure_comments\<close>: the view body. The outcome pairs what the view returns or
  raises with the node as the request leaves it.
\<close>

definition configure_comments ::
  "(string \<times> json) list \<Rightarrow> node loaded \<Rightarrow> (exn + unit) \<times> node loaded" where
  "configure_comments request_json node =
     (let comment_level = json_get request_json ''commentLevel'' in
      if \<not> truthy comment_level then
        (Inr (), save (node\<lparr>obj := (obj node)\<lparr>comment_level := None\<rparr>\<rparr>))
      else
        (case comment_level of
           JStr s \<Rightarrow>
             if s \<in> set [''public'', ''private''] then
               (Inr (), save (node\<lparr>obj := (obj node)\<lparr>comment_level := Some s\<rparr>\<rparr>))
             else (Inl (HTTPError BAD_REQUEST [] None), node)
         | _ \<Rightarrow> (Inl (HTTPError BAD_REQUEST [] None), node)))"

section \<open>Reordering components\<close>





section \<open>Editable children\<close>

text \<open>
  Permission names of \<^verbatim>\<open>website.util.permissions\<close>, and the component tree: a node's
  attributes with its \<^verbatim>\<open>nodes_primary\<close>, the child components it owns (the parent
  chain of a node is finite and acyclic, so the components below a node form a tree).
\<close>

datatype permission = READ | WRITE | ADMIN

datatype component = Component (attrs: node) (nodes_primary: "component list")

record child_entry =
  entry_id :: string
  entry_title :: string
  entry_indent :: nat
  entry_is_public :: bool
  entry_parent_id :: "string option"

definition child_entry_of :: "component \<Rightarrow> nat \<Rightarrow> child_entry" where
  "child_entry_of child indent =
     \<lparr>entry_id = node_id (attrs child), entry_title = title (attrs child),
      entry_indent = indent, entry_is_public = is_public (attrs child),
      entry_parent_id = parent_id (attrs child)\<rparr>"

text \<open>
  \<^verbatim>\<open>_get_children(node, auth, indent)\<close>. \<open>has_permission n user p\<close> is
  \<^verbatim>\<open>n.has_permission(user, p)\<close> of the model layer, a parameter.
\<close>

fun get_children ::
  "(node \<Rightarrow> string \<Rightarrow> permission \<Rightarrow> bool) \<Rightarrow> component \<Rightarrow> string \<Rightarrow> nat \<Rightarrow> child_entry list" where
  "get_children has_permission (Component a cs) user indent =
     concat (map (\<lambda>child.
        if \<not> is_deleted (attrs child) \<and> has_permission (attrs child) user ADMIN
        then child_entry_of child indent # get_children has_permission child user (indent + 1)
        else []) cs)"

record editable_children =
  ret_node :: "string \<times> string \<times> bool"
  ret_children :: "child_entry list"

definition get_editable_children ::
  "(node \<Rightarrow> string \<Rightarrow> permission \<Rightarrow> bool) \<Rightarrow> component \<Rightarrow> string \<Rightarrow> editable_children" where
  "get_editable_children has_permission node user =
     (let children = get_children has_permission node user 0 in
      \<lparr>ret_node = (node_id (attrs node), title (attrs node), is_public (attrs node)),
       ret_children = children\<rparr>)"

text \<open>
  The strict descendants of a component, and the descendants the claim speaks of:
  \<open>editable_descendant has_permission user n d c\<close> holds when \<open>c\<close> lies \<open>d + 1\<close> levels
  below \<open>n\<close> and \<open>c\<close> and every component between \<open>n\<close> and \<open>c\<close> is non-deleted with
  the user admin on it.
\<close>

fun descendants :: "component \<Rightarrow> component list" where
  "descendants (Component a cs) = concat (map (\<lambda>c. c # descendants c) cs)"

inductive editable_descendant ::
  "(node \<Rightarrow> string \<Rightarrow> permission \<Rightarrow> bool) \<Rightarrow> string \<Rightarrow> component \<Rightarrow> nat \<Rightarrow> component \<Rightarrow> bool"
  for has_permission user where
    child: "child \<in> set (nodes_primary n) \<Longrightarrow> \<not> is_deleted (attrs child)
              \<Longrightarrow> has_permission (attrs child) user ADMIN
              \<Longrightarrow> editable_descendant has_permission user n 0 child"
  | deeper: "child \<in> set (nodes_primary n) \<Longrightarrow> \<not> is_deleted (attrs child)
              \<Longrightarrow> has_permission (attrs child) user ADMIN
              \<Longrightarrow> editable_descendant has_permission user child d c
              \<Longrightarrow> editable_descendant has_permission user n (Suc d) c"

section \<open>Removing a component\<close>

text \<open>
  Modelled from the spec: the property \<^verbatim>\<open>parent_node\<close> of the model layer is not in this
  file. A node has exactly one parent reference, nullable; the view reads the same
  parent through the back-reference list \<^verbatim>\<open>node__parent\<close>, so \<open>parent_node\<close> is the first
  entry of that list when there is one.
\<close>

definition parent_node :: "node list \<Rightarrow> node option" where
  "parent_node node__parent = (case node__parent of [] \<Rightarrow> None | p # _ \<Rightarrow> Some p)"

text \<open>
  \<^verbatim>\<open>component_remove\<close>: the view body. \<open>remove_node\<close> (the model's soft delete),
  \<open>can_view\<close> and \<open>url\<close> are parameters; the status message pushed to the session is
  not modelled. The value returned is the \<^verbatim>\<open>url\<close> entry of the response.
\<close>

definition component_remove ::
  "(node \<Rightarrow> string \<Rightarrow> exn + node) \<Rightarrow> (node \<Rightarrow> string \<Rightarrow> bool) \<Rightarrow> (node \<Rightarrow> string)
     \<Rightarrow> string \<Rightarrow> node list \<Rightarrow> node loaded \<Rightarrow> (exn + string) \<times> node loaded" where
  "component_remove remove_node can_view url auth node__parent node =
     (case remove_node (obj node) auth of
        Inl (NodeStateError message) \<Rightarrow>
          (Inl (HTTPError BAD_REQUEST
                  [(''message_short'', ''Error''),
                   (''message_long'', ''Could not delete component: '' @ message)] None), node)
      | Inl e \<Rightarrow> (Inl e, node)
      | Inr removed \<Rightarrow>
          (let node' = save (node\<lparr>obj := removed\<rparr>);
               parent = parent_node node__parent
           in if (case parent of None \<Rightarrow> False | Some p \<Rightarrow> can_view p auth)
              then (case node__parent of
                      [] \<Rightarrow> (Inl IndexError, node')
                    | p # _ \<Rightarrow> (Inr (url p), node'))
              else (Inr ''/dashboard/'', node')))"

text \<open>
  The claim's terms: the ancestors of a node, nearest first, the nearest of them the
  actor can view, and the redirection that stands for it (the dashboard for none).
\<close>

definition nearest_viewable_ancestor ::
  "(node \<Rightarrow> string \<Rightarrow> bool) \<Rightarrow> string \<Rightarrow> node list \<Rightarrow> node option" where
  "nearest_viewable_ancestor can_view auth ancestors = find (\<lambda>a. can_view a auth) ancestors"

definition redirect_to :: "(node \<Rightarrow> string) \<Rightarrow> node option \<Rightarrow> string" where
  "redirect_to url target = (case target of None \<Rightarrow> ''/dashboard/'' | Some a \<Rightarrow> url a)"

section \<open>Pointers\<close>

text \<open>
  The pointer side of a node: its key, the pointer records it hosts, in order, and the
  keys of its ancestors and descendants in the component tree. A pointer record names
  its target node and carries the soft-delete flag.
\<close>

record pointer =
  pointer_target :: string
  pointer_deleted :: bool

record pointer_host =
  host_id :: string
  pointers :: "pointer list"
  tree_relatives :: "string list"

definition active_targets :: "pointer_host \<Rightarrow> string list" where
  "active_targets h = map pointer_target (filter (\<lambda>p. \<not> pointer_deleted p) (pointers h))"

text \<open>
  Modelled from the spec: the model method \<^verbatim>\<open>Node.add_pointer(target, auth, save=False)\<close>
  is not in this file. It fails with \<^verbatim>\<open>ValueError\<close> if the target equals the host, if
  the host already holds an active pointer to it, or if it is an ancestor or a
  descendant of the host in the tree; otherwise it appends a new active pointer to the
  node object, which \<^verbatim>\<open>node.save()\<close> persists. A target that did not load is Python's
  \<^verbatim>\<open>None\<close>, on which the attribute access raises \<^verbatim>\<open>AttributeError\<close>.
\<close>

definition add_pointer :: "string option \<Rightarrow> pointer_host \<Rightarrow> exn + pointer_host" where
  "add_pointer target h =
     (case target of
        None \<Rightarrow> Inl AttributeError
      | Some t \<Rightarrow>
          if t = host_id h \<or> t \<in> set (active_targets h) \<or> t \<in> set (tree_relatives h)
          then Inl ValueError
          else Inr (h\<lparr>pointers := pointers h @ [\<lparr>pointer_target = t, pointer_deleted = False\<rparr>]\<rparr>))"

text \<open>
  Modelled from the spec: \<^verbatim>\<open>Node.pointing_at(target_id)\<close> followed by
  \<^verbatim>\<open>Pointer.load\<close> resolves the existing active pointer from the host to the target,
  \<open>None\<close> when there is none.
\<close>

definition pointing_at :: "pointer_host \<Rightarrow> string \<Rightarrow> pointer option" where
  "pointing_at h target_id =
     find (\<lambda>p. pointer_target p = target_id \<and> \<not> pointer_deleted p) (pointers h)"

text \<open>
  Modelled from the spec: \<^verbatim>\<open>Node.rm_pointer(pointer, auth)\<close> fails (with the
  \<^verbatim>\<open>ValueError\<close> the views catch) if the pointer is not an active pointer owned by
  the host, and soft-deletes it otherwise.
\<close>

fun mark_deleted :: "pointer \<Rightarrow> pointer list \<Rightarrow> pointer list" where
  "mark_deleted p [] = []"
| "mark_deleted p (q # qs) =
     (if q = p then q\<lparr>pointer_deleted := True\<rparr> # qs else q # mark_deleted p qs)"

definition rm_pointer :: "pointer \<Rightarrow> pointer_host \<Rightarrow> exn + pointer_host" where
  "rm_pointer p h =
     (if p \<in> set (pointers h) \<and> \<not> pointer_deleted p
      then Inr (h\<lparr>pointers := mark_deleted p (pointers h)\<rparr>)
      else Inl ValueError)"

text \<open>
  \<^verbatim>\<open>_add_pointers(node, pointers, auth)\<close>. \<open>add_each\<close> is its loop: it stops at the first
  call that raises, with the node object as the calls before it left it. The node is
  saved once, after the loop, if at least one pointer was added.
\<close>

fun add_each :: "string option list \<Rightarrow> pointer_host \<Rightarrow> exn option \<times> pointer_host" where
  "add_each [] h = (None, h)"
| "add_each (pointer # rest) h =
     (case add_pointer pointer h of
        Inl e \<Rightarrow> (Some e, h)
      | Inr h' \<Rightarrow> add_each rest h')"

definition priv_add_pointers ::
  "pointer_host loaded \<Rightarrow> string option list \<Rightarrow> (exn + unit) \<times> pointer_host loaded" where
  "priv_add_pointers node pointer_nodes =
     (case add_each pointer_nodes (obj node) of
        (Some e, h) \<Rightarrow> (Inl e, node\<lparr>obj := h\<rparr>)
      | (None, h) \<Rightarrow>
          (let added = (pointer_nodes \<noteq> []) in
           (Inr (), if added then save (node\<lparr>obj := h\<rparr>) else node\<lparr>obj := h\<rparr>)))"

text \<open>
  \<^verbatim>\<open>add_pointers\<close>: the view body. \<open>request_node_ids\<close> is \<^verbatim>\<open>request.json.get('nodeIds')\<close>, \<open>None\<close>
  when absent; \<open>load\<close> is \<^verbatim>\<open>Node.load\<close>, a parameter.
\<close>

definition add_pointers ::
  "(string \<Rightarrow> string option) \<Rightarrow> string list option \<Rightarrow> pointer_host loaded
     \<Rightarrow> (exn + unit) \<times> pointer_host loaded" where
  "add_pointers load request_node_ids node =
     (case request_node_ids of
        None \<Rightarrow> (Inl (HTTPError BAD_REQUEST [] None), node)
      | Some [] \<Rightarrow> (Inl (HTTPError BAD_REQUEST [] None), node)
      | Some ids \<Rightarrow>
          (let nodes = map load ids in
           case priv_add_pointers node nodes of
             (Inl ValueError, node') \<Rightarrow> (Inl (HTTPError BAD_REQUEST [] None), node')
           | outcome \<Rightarrow> outcome))"

section \<open>Moving pointers\<close>

text \<open>
  \<^verbatim>\<open>move_pointers\<close> loads two nodes that may be one and the same object, so the nodes
  live in a store: \<open>known\<close> lists the keys \<^verbatim>\<open>Node.load\<close> resolves, \<open>node_at\<close> gives the
  loaded object of a key, shared by everyone who loaded it.
\<close>

record node_store =
  known :: "string list"
  node_at :: "string \<Rightarrow> pointer_host loaded"

definition node_load :: "node_store \<Rightarrow> string \<Rightarrow> string option" where
  "node_load s k = (if k \<in> set (known s) then Some k else None)"

definition put_node :: "node_store \<Rightarrow> string \<Rightarrow> pointer_host loaded \<Rightarrow> node_store" where
  "put_node s k n = s\<lparr>node_at := (node_at s)(k := n)\<rparr>"

text \<open>
  \<^verbatim>\<open>except ValueError: raise HTTPError(http.BAD_REQUEST)\<close>: a \<^verbatim>\<open>ValueError\<close> becomes
  the bad-request error, any other exception passes through.
\<close>

fun except_ValueError :: "exn \<Rightarrow> exn" where
  "except_ValueError ValueError = HTTPError BAD_REQUEST [] None"
| "except_ValueError e = e"

text \<open>
  One round of the loop of \<^verbatim>\<open>move_pointers\<close>: resolve the pointer on \<^verbatim>\<open>from_node\<close>,
  remove it, save \<^verbatim>\<open>from_node\<close>, then add a pointer to the same target on
  \<^verbatim>\<open>to_node\<close>. \<open>move_each\<close> is the loop over \<^verbatim>\<open>pointers_to_move\<close>; it ends at the
  first round that raises.
\<close>

definition move_one :: "string \<Rightarrow> string \<Rightarrow> string \<Rightarrow> node_store \<Rightarrow> (exn + unit) \<times> node_store" where
  "move_one pointer_to_move from_node to_node s =
     (let pointer = pointing_at (obj (node_at s from_node)) pointer_to_move;
          pointer_node = node_load s pointer_to_move
      in case pointer of
           None \<Rightarrow> (Inl (HTTPError BAD_REQUEST [] None), s)
         | Some p \<Rightarrow>
             (case rm_pointer p (obj (node_at s from_node)) of
                Inl e \<Rightarrow> (Inl (except_ValueError e), s)
              | Inr h \<Rightarrow>
                  (let s1 = put_node s from_node (save ((node_at s from_node)\<lparr>obj := h\<rparr>)) in
                   case priv_add_pointers (node_at s1 to_node) [pointer_node] of
                     (Inl e, n) \<Rightarrow> (Inl (except_ValueError e), put_node s1 to_node n)
                   | (Inr u, n) \<Rightarrow> (Inr (), put_node s1 to_node n))))"

fun move_each :: "string list \<Rightarrow> string \<Rightarrow> string \<Rightarrow> node_store \<Rightarrow> (exn + unit) \<times> node_store" where
  "move_each [] from_node to_node s = (Inr (), s)"
| "move_each (pointer_to_move # rest) from_node to_node s =
     (case move_one pointer_to_move from_node to_node s of
        (Inl e, s') \<Rightarrow> (Inl e, s')
      | (Inr u, s') \<Rightarrow> move_each rest from_node to_node s')"

definition move_pointers ::
  "string option \<Rightarrow> string option \<Rightarrow> string list option \<Rightarrow> node_store
     \<Rightarrow> (exn + unit) \<times> node_store" where
  "move_pointers from_node_id to_node_id pointers_to_move s =
     (case (from_node_id, to_node_id, pointers_to_move) of
        (Some from_id, Some to_id, Some ps) \<Rightarrow>
          (case (node_load s from_id, node_load s to_id) of
             (Some from_node, Some to_node) \<Rightarrow> move_each ps from_node to_node s
           | _ \<Rightarrow> (Inl (HTTPError BAD_REQUEST [] None), s))
      | _ \<Rightarrow> (Inl (HTTPError BAD_REQUEST [] None), s))"

section \<open>Permissions and privacy\<close>

text \<open>
  Modelled from the spec: the permission model and the decorator
  \<^verbatim>\<open>must_have_permission\<close> of \<^verbatim>\<open>website.project.decorators\<close> are not in this file. The
  effective permission of a user on a node is \<open>None\<close> (none) or a level; it is the
  explicit entry of the node's contributor mapping if there is one, else admin if the
  user holds admin on some strict ancestor, else read if the node is public, else none.
  \<open>require\<close> fails, with the \<^verbatim>\<open>PermissionsError\<close> the spec calls PermissionDenied, if
  the effective permission is below the level asked for; the decorator runs it before
  the view body.
\<close>

fun level :: "permission option \<Rightarrow> nat" where
  "level None = 0"
| "level (Some READ) = 1"
| "level (Some WRITE) = 2"
| "level (Some ADMIN) = 3"


definition require :: "permission option \<Rightarrow> permission \<Rightarrow> exn option" where
  "require effective required =
     (if level effective < level (Some required) then Some PermissionsError else None)"

definition must_have_permission ::
  "permission \<Rightarrow> permission option \<Rightarrow> ('s \<Rightarrow> (exn + 'a) \<times> 's) \<Rightarrow> 's \<Rightarrow> (exn + 'a) \<times> 's" where
  "must_have_permission required effective view s =
     (case require effective required of
        Some e \<Rightarrow> (Inl e, s)
      | None \<Rightarrow> view s)"





section \<open>Forking\<close>

text \<open>
  Modelled from the spec: the decorator \<^verbatim>\<open>http_error_if_disk_saving_mode\<close> is not in this
  file. The system-wide storage-conservation mode is a configuration value passed in;
  when it is active the decorator fails, before the view body, with the HTTP error the
  spec calls DiskSavingModeError.
\<close>

definition http_error_if_disk_saving_mode ::
  "bool \<Rightarrow> ('s \<Rightarrow> (exn + 'a) \<times> 's) \<Rightarrow> 's \<Rightarrow> (exn + 'a) \<times> 's" where
  "http_error_if_disk_saving_mode disk_saving_mode view s =
     (if disk_saving_mode then (Inl DiskSavingModeError, s) else view s)"

text \<open>
  Modelled from the spec: the model method \<^verbatim>\<open>Node.fork_node(auth)\<close> is not in this file.
  It requires at least read access and fails with \<^verbatim>\<open>PermissionsError\<close> otherwise. The
  fork is a new private node with the actor as its sole contributor, and so,
  recursively and in order, are the forks of the active components below it;
  \<open>new_key\<close> names the clone of a node. Of the fork only what this file reads is
  modelled; the new nodes are appended to the nodes created so far.
\<close>

fun fork_component :: "(string \<Rightarrow> string) \<Rightarrow> string \<Rightarrow> component \<Rightarrow> component" where
  "fork_component new_key actor (Component a cs) =
     Component (a\<lparr>node_id := new_key (node_id a), is_public := False, contributors := [actor]\<rparr>)
       (concat (map (\<lambda>c. if is_deleted (attrs c) then [] else [fork_component new_key actor c]) cs))"

definition fork_node ::
  "permission option \<Rightarrow> (string \<Rightarrow> string) \<Rightarrow> string \<Rightarrow> component \<Rightarrow> component list
     \<Rightarrow> exn + component \<times> component list" where
  "fork_node effective new_key actor node created =
     (if level effective < level (Some READ) then Inl PermissionsError
      else (let fork = fork_component new_key actor node in Inr (fork, created @ [fork])))"

text \<open>
  \<^verbatim>\<open>node_fork_page\<close>: the view body under the disk-saving decorator. The state is the
  list of nodes created so far; \<open>url\<close> is the \<^verbatim>\<open>url\<close> property, a parameter; the status
  message pushed to the session is not modelled. The login and validity checks of
  \<^verbatim>\<open>must_be_logged_in\<close> and \<^verbatim>\<open>must_be_valid_project\<close> are outside this model.
\<close>

definition node_fork_page_body ::
  "permission option \<Rightarrow> (string \<Rightarrow> string) \<Rightarrow> (node \<Rightarrow> string) \<Rightarrow> string \<Rightarrow> component
     \<Rightarrow> component list \<Rightarrow> (exn + string) \<times> component list" where
  "node_fork_page_body effective new_key url actor node created =
     (case fork_node effective new_key actor node created of
        Inl PermissionsError \<Rightarrow> (Inl (HTTPError FORBIDDEN [] (Some (url (attrs node)))), created)
      | Inl e \<Rightarrow> (Inl e, created)
      | Inr (fork, created') \<Rightarrow> (Inr (url (attrs fork)), created'))"

definition node_fork_page ::
  "bool \<Rightarrow> permission option \<Rightarrow> (string \<Rightarrow> string) \<Rightarrow> (node \<Rightarrow> string) \<Rightarrow> string \<Rightarrow> component
     \<Rightarrow> component list \<Rightarrow> (exn + string) \<times> component list" where
  "node_fork_page disk_saving_mode effective new_key url actor node created =
     http_error_if_disk_saving_mode disk_saving_mode
       (node_fork_page_body effective new_key url actor node) created"

section \<open>Updating fields\<close>

text \<open>
  The node as \<^verbatim>\<open>Node.update\<close> and \<^verbatim>\<open>update_node\<close> see it: the attributes above, its tags
  (\<^verbatim>\<open>Tag\<close> objects, each with the text \<^verbatim>\<open>str\<close> gives for it) and the audit fields
  \<^verbatim>\<open>logs\<close> and \<^verbatim>\<open>date_modified\<close>. \<open>attributes\<close> lists every field by name with its
  value; \<open>getattr\<close> is \<open>None\<close> where Python raises \<^verbatim>\<open>AttributeError\<close>.
\<close>

record audited_node = node +
  tags :: "string list"
  logs :: "string list"
  date_modified :: nat

datatype attr =
    Text string
  | Flag bool
  | Texts "string list"
  | Opt_text "string option"
  | Stamp nat
  | Tag_objects "string list"

definition attributes :: "audited_node \<Rightarrow> (string \<times> attr) list" where
  "attributes n =
     [(''_id'', Text (node_id n)),
      (''title'', Text (title n)),
      (''category'', Text (category n)),
      (''description'', Text (description n)),
      (''is_public'', Flag (is_public n)),
      (''is_deleted'', Flag (is_deleted n)),
      (''is_collection'', Flag (is_collection n)),
      (''comment_level'', Opt_text (comment_level n)),
      (''contributors'', Texts (contributors n)),
      (''node_ids'', Texts (node_ids n)),
      (''parent_id'', Opt_text (parent_id n)),
      (''tags'', Tag_objects (tags n)),
      (''logs'', Texts (logs n)),
      (''date_modified'', Stamp (date_modified n))]"

definition field_names :: "string list" where
  "field_names =
     [''_id'', ''title'', ''category'', ''description'', ''is_public'', ''is_deleted'',
      ''is_collection'', ''comment_level'', ''contributors'', ''node_ids'', ''parent_id'',
      ''tags'', ''logs'', ''date_modified'']"

definition getattr :: "string \<Rightarrow> audited_node \<Rightarrow> attr option" where
  "getattr key n = map_of (attributes n) key"

text \<open>
  Modelled from the spec: the model method \<^verbatim>\<open>Node.update(changes, auth)\<close> and its
  \<^verbatim>\<open>WRITABLE_WHITELIST\<close> are not in this file. Only the whitelisted fields (title,
  category, description, as the comment in \<^verbatim>\<open>update_node\<close> lists them) may be changed;
  any other field name fails with \<^verbatim>\<open>NodeUpdateError\<close> naming the field, before anything
  is changed. A title goes through the validation of node creation (\<open>validate_title\<close>,
  a parameter), which fails with \<^verbatim>\<open>ValidationValueError\<close>. The method returns the
  names of the changed fields: the fields whose value on the object now differs from
  the stored record. This is how names such as \<^verbatim>\<open>tags\<close>, \<^verbatim>\<open>logs\<close> and
  \<^verbatim>\<open>date_modified\<close>, which the view provides for, can be among them when the object
  was changed before the call.
\<close>

definition WRITABLE_WHITELIST :: "string list" where
  "WRITABLE_WHITELIST = [''title'', ''category'', ''description'']"

definition setattr :: "string \<Rightarrow> string \<Rightarrow> audited_node \<Rightarrow> audited_node" where
  "setattr key v n =
     (if key = ''title'' then n\<lparr>title := v\<rparr>
      else if key = ''category'' then n\<lparr>category := v\<rparr>
      else if key = ''description'' then n\<lparr>description := v\<rparr>
      else n)"

fun apply_changes ::
  "(string \<Rightarrow> bool) \<Rightarrow> (string \<times> string) list \<Rightarrow> audited_node \<Rightarrow> exn + audited_node" where
  "apply_changes validate_title [] n = Inr n"
| "apply_changes validate_title ((key, v) # rest) n =
     (if key = ''title'' \<and> \<not> validate_title v then Inl ValidationValueError
      else apply_changes validate_title rest (setattr key v n))"

definition changed_fields :: "audited_node \<Rightarrow> audited_node \<Rightarrow> string list" where
  "changed_fields n old = filter (\<lambda>key. getattr key n \<noteq> getattr key old) field_names"

definition update ::
  "(string \<Rightarrow> bool) \<Rightarrow> (string \<times> string) list \<Rightarrow> audited_node loaded
     \<Rightarrow> exn + audited_node loaded \<times> string list" where
  "update validate_title changes node =
     (case find (\<lambda>key. key \<notin> set WRITABLE_WHITELIST) (map fst changes) of
        Some key \<Rightarrow> Inl (NodeUpdateError key ''Key is not writable'')
      | None \<Rightarrow>
          (case apply_changes validate_title changes (obj node) of
             Inl e \<Rightarrow> Inl e
           | Inr n' \<Rightarrow> Inr (node\<lparr>obj := n'\<rparr>, changed_fields n' (stored node))))"

text \<open>
  \<^verbatim>\<open>update_node\<close>: the view body under its permission decorator. The request body is
  a dictionary of field names and text values; \<open>strip_html\<close> is the sanitiser, a
  parameter. \<open>updated_fields\<close> is the dictionary comprehension: the value of every
  name by \<^verbatim>\<open>getattr\<close>, except \<^verbatim>\<open>tags\<close>, whose value is the list of the tags' texts. The
  registration check of \<^verbatim>\<open>must_not_be_registration\<close> and the validity check are outside
  this model.
\<close>

fun updated_fields :: "audited_node \<Rightarrow> string list \<Rightarrow> exn + (string \<times> attr) list" where
  "updated_fields node [] = Inr []"
| "updated_fields node (key # keys) =
     (case (if key \<noteq> ''tags''
            then (case getattr key node of None \<Rightarrow> Inl AttributeError | Some v \<Rightarrow> Inr v)
            else Inr (Texts (tags node))) of
        Inl e \<Rightarrow> Inl e
      | Inr v \<Rightarrow>
          (case updated_fields node keys of
             Inl e \<Rightarrow> Inl e
           | Inr d \<Rightarrow> Inr ((key, v) # d)))"

definition update_node_body ::
  "(string \<Rightarrow> string) \<Rightarrow> (string \<Rightarrow> bool) \<Rightarrow> (string \<times> string) list \<Rightarrow> audited_node loaded
     \<Rightarrow> (exn + (string \<times> attr) list) \<times> audited_node loaded" where
  "update_node_body strip_html validate_title request_json node =
     (let data = map (\<lambda>(key, v). (key, strip_html v)) request_json in
      case update validate_title data node of
        Inl (NodeUpdateError key reason) \<Rightarrow>
          (Inl (HTTPError 400
                  [(''message_short'',
                    ''Failed to update attribute '' @ [CHR 0x27] @ key @ [CHR 0x27]),
                   (''message_long'', reason)] None), node)
      | Inl e \<Rightarrow> (Inl e, node)
      | Inr (node', updated_field_names) \<Rightarrow>
          (case updated_fields (obj node')
                  (filter (\<lambda>key. key \<noteq> ''logs'' \<and> key \<noteq> ''date_modified'')
                     updated_field_names) of
             Inl e \<Rightarrow> (Inl e, node')
           | Inr updated_fields_dict \<Rightarrow> (Inr updated_fields_dict, save node')))"

definition update_node ::
  "permission option \<Rightarrow> (string \<Rightarrow> string) \<Rightarrow> (string \<Rightarrow> bool) \<Rightarrow> (string \<times> string) list
     \<Rightarrow> audited_node loaded \<Rightarrow> (exn + (string \<times> attr) list) \<times> audited_node loaded" where
  "update_node effective strip_html validate_title request_json node =
     must_have_permission WRITE effective
       (update_node_body strip_html validate_title request_json) node"

section \<open>Searching nodes\<close>










section \<open>Example data\<close>

text \<open>A project with one contributor, and a loader that resolves every key of the
  \<open>node\<close> collection to the object of that name and nothing else.\<close>

definition example_node :: "node loaded" where
  "example_node =
     (let n = \<lparr>node_id = ''abc12'', title = ''Study'', category = ''project'',
               description = [], is_public = False, is_deleted = False,
               is_collection = False, comment_level = Some ''public'',
               contributors = [''u1''], node_ids = [], parent_id = None\<rparr>
      in \<lparr>obj = n, stored = n\<rparr>)"



text \<open>A project with two components; the user \<open>u1\<close> is admin on the project, on the
  first component and on the component below the second, but not on the second.\<close>

definition example_attrs :: "string \<Rightarrow> string option \<Rightarrow> node" where
  "example_attrs k p =
     \<lparr>node_id = k, title = k, category = ''project'', description = [],
      is_public = False, is_deleted = False, is_collection = False,
      comment_level = None, contributors = [''u1''], node_ids = [], parent_id = p\<rparr>"

definition example_tree :: component where
  "example_tree =
     Component (example_attrs ''p'' None)
       [Component (example_attrs ''c1'' (Some ''p'')) [],
        Component (example_attrs ''c2'' (Some ''p''))
          [Component (example_attrs ''g'' (Some ''c2'')) []]]"

definition example_has_permission :: "node \<Rightarrow> string \<Rightarrow> permission \<Rightarrow> bool" where
  "example_has_permission n user p = (user = ''u1'' \<and> node_id n \<noteq> ''c2'')"

text \<open>A soft delete that always succeeds, a component whose parent only the user
  \<open>u2\<close> may view and whose grandparent \<open>u1\<close> may view.\<close>

definition example_remove_node :: "node \<Rightarrow> string \<Rightarrow> exn + node" where
  "example_remove_node n auth = Inr (n\<lparr>is_deleted := True\<rparr>)"

definition example_can_view :: "node \<Rightarrow> string \<Rightarrow> bool" where
  "example_can_view n auth = (auth = ''u2'' \<or> node_id n \<noteq> ''c2'')"

definition example_url :: "node \<Rightarrow> string" where
  "example_url n = ''/'' @ node_id n @ ''/''"

definition example_ancestors :: "node list" where
  "example_ancestors = [example_attrs ''c2'' (Some ''p''), example_attrs ''p'' None]"

definition example_component :: "node loaded" where
  "example_component =
     \<lparr>obj = example_attrs ''g'' (Some ''c2''), stored = example_attrs ''g'' (Some ''c2'')\<rparr>"

text \<open>A host \<open>h\<close> with one active pointer, to \<open>x\<close>, below the project \<open>par\<close>; every
  key but \<open>missing\<close> loads.\<close>

definition example_node_load :: "string \<Rightarrow> string option" where
  "example_node_load k = (if k = ''missing'' then None else Some k)"

definition example_host_obj :: pointer_host where
  "example_host_obj =
     \<lparr>host_id = ''h'',
      pointers = [\<lparr>pointer_target = ''x'', pointer_deleted = False\<rparr>],
      tree_relatives = [''par'']\<rparr>"

definition example_host :: "pointer_host loaded" where
  "example_host = \<lparr>obj = example_host_obj, stored = example_host_obj\<rparr>"

text \<open>Four nodes: \<open>A\<close> holds an active pointer to \<open>B\<close>; \<open>C\<close> is a component of \<open>B\<close>;
  \<open>D\<close> is unrelated.\<close>

definition example_pointer_host :: "string \<Rightarrow> pointer list \<Rightarrow> string list \<Rightarrow> pointer_host loaded" where
  "example_pointer_host k ps rel =
     \<lparr>obj = \<lparr>host_id = k, pointers = ps, tree_relatives = rel\<rparr>,
      stored = \<lparr>host_id = k, pointers = ps, tree_relatives = rel\<rparr>\<rparr>"

definition example_store :: node_store where
  "example_store =
     \<lparr>known = [''A'', ''B'', ''C'', ''D''],
      node_at = (\<lambda>k.
        if k = ''A'' then
          example_pointer_host ''A'' [\<lparr>pointer_target = ''B'', pointer_deleted = False\<rparr>] []
        else if k = ''B'' then example_pointer_host ''B'' [] [''C'']
        else if k = ''C'' then example_pointer_host ''C'' [] [''B'']
        else example_pointer_host k [] [])\<rparr>"


text \<open>Keys of clones: the key of the original with a mark.\<close>

definition example_new_key :: "string \<Rightarrow> string" where
  "example_new_key k = k @ ''-fork''"

text \<open>A sanitiser that drops angle brackets, a title check that refuses the empty
  title, and the example project with its tags and audit fields.\<close>

definition example_strip_html :: "string \<Rightarrow> string" where
  "example_strip_html s = filter (\<lambda>c. c \<noteq> CHR ''<'' \<and> c \<noteq> CHR ''>'') s"

definition example_validate_title :: "string \<Rightarrow> bool" where
  "example_validate_title t = (t \<noteq> [])"

definition example_audited_obj :: audited_node where
  "example_audited_obj =
     \<lparr>node_id = ''abc12'', title = ''Study'', category = ''project'',
      description = [], is_public = False, is_deleted = False,
      is_collection = False, comment_level = Some ''public'',
      contributors = [''u1''], node_ids = [], parent_id = None,
      tags = [''pilot''], logs = [''created''], date_modified = 7\<rparr>"

definition example_audited :: "audited_node loaded" where
  "example_audited = \<lparr>obj = example_audited_obj, stored = example_audited_obj\<rparr>"







section \<open>Properties\<close>

subsection \<open>Reordering components\<close>







subsection \<open>Comment settings\<close>

text \<open>
  C9. For every request to \<^verbatim>\<open>configure_comments\<close>: a falsy \<open>commentLevel\<close> (absent,
  null, false, zero, empty) sets the comment level to none and saves; the strings
  \<open>public\<close> and \<open>private\<close> are set as given and saved; every other value raises the
  bad-request error before any save, and the node object and its stored record,
  the comment level with them, are as they were.
\<close>

theorem configure_comments_levels:
  fixes request_json node
  defines "v \<equiv> json_get request_json ''commentLevel''"
  shows "(\<not> truthy v \<longrightarrow>
            configure_comments request_json node =
              (Inr (), \<lparr>obj = (obj node)\<lparr>comment_level := None\<rparr>,
                        stored = (obj node)\<lparr>comment_level := None\<rparr>\<rparr>))
       \<and> (v = JStr ''public'' \<or> v = JStr ''private'' \<longrightarrow>
            (\<exists>s. v = JStr s \<and> configure_comments request_json node =
              (Inr (), \<lparr>obj = (obj node)\<lparr>comment_level := Some s\<rparr>,
                        stored = (obj node)\<lparr>comment_level := Some s\<rparr>\<rparr>)))
       \<and> (truthy v \<and> v \<noteq> JStr ''public'' \<and> v \<noteq> JStr ''private'' \<longrightarrow>
            configure_comments request_json node = (Inl (HTTPError BAD_REQUEST [] None), node))"
  unfolding v_def
  by (cases "json_get request_json ''commentLevel''")
     (auto simp: configure_comments_def save_def Let_def)

theorem configure_comments_levels_witness:
  "configure_comments [] example_node =
     (Inr (), \<lparr>obj = (obj example_node)\<lparr>comment_level := None\<rparr>,
               stored = (obj example_node)\<lparr>comment_level := None\<rparr>\<rparr>)
   \<and> configure_comments [(''commentLevel'', JStr ''private'')] example_node =
     (Inr (), \<lparr>obj = (obj example_node)\<lparr>comment_level := Some ''private''\<rparr>,
               stored = (obj example_node)\<lparr>comment_level := Some ''private''\<rparr>\<rparr>)
   \<and> configure_comments [(''commentLevel'', JStr ''everyone'')] example_node =
     (Inl (HTTPError BAD_REQUEST [] None), example_node)"
  using configure_comments_levels [of "[]" example_node]
    configure_comments_levels [of "[(''commentLevel'', JStr ''private'')]" example_node]
    configure_comments_levels [of "[(''commentLevel'', JStr ''everyone'')]" example_node]
  by (simp add: json_get_def)

subsection \<open>Editable children\<close>

lemma get_children_sound:
  "e \<in> set (get_children hp n user indent) \<Longrightarrow>
     \<exists>d c. editable_descendant hp user n d c \<and> e = child_entry_of c (indent + d)"
proof (induction hp n user indent arbitrary: e rule: get_children.induct)
  case (1 hp a cs user indent)
  from "1.prems" obtain child where ch: "child \<in> set cs"
    and ok: "\<not> is_deleted (attrs child)" "hp (attrs child) user ADMIN"
    and e: "e = child_entry_of child indent \<or> e \<in> set (get_children hp child user (indent + 1))"
    by (auto split: if_splits)
  from e show ?case
  proof
    assume "e = child_entry_of child indent"
    then show ?thesis using ch ok editable_descendant.child [of child "Component a cs" hp user]
      by (metis add.right_neutral component.sel(2))
  next
    assume "e \<in> set (get_children hp child user (indent + 1))"
    from "1.IH" [OF ch _ this] ok obtain d c where
      "editable_descendant hp user child d c" "e = child_entry_of c (indent + 1 + d)" by auto
    then show ?thesis
      using ch ok editable_descendant.deeper [of child "Component a cs" hp user d c]
      by (metis add.assoc plus_1_eq_Suc component.sel(2))
  qed
qed

lemma get_children_complete:
  "editable_descendant hp user n d c \<Longrightarrow> child_entry_of c (indent + d) \<in> set (get_children hp n user indent)"
proof (induction arbitrary: indent rule: editable_descendant.induct)
  case (child ch n)
  then show ?case by (cases n) auto
next
  case (deeper ch n d c)
  from deeper.IH [of "indent + 1"] deeper.hyps(1-3) show ?case
    by (cases n) (auto intro!: bexI [of _ ch])
qed

lemma editable_descendant_is_descendant:
  "editable_descendant hp user n d c \<Longrightarrow>
     c \<in> set (descendants n) \<and> \<not> is_deleted (attrs c) \<and> hp (attrs c) user ADMIN"
proof (induction rule: editable_descendant.induct)
  case (child ch n)
  then show ?case by (cases n) auto
next
  case (deeper ch n d c)
  then show ?case by (cases n) auto
qed

text \<open>
  C10. Every entry of the children list returned by \<^verbatim>\<open>get_editable_children\<close>
  describes a strict descendant of the node that is not deleted and on which the user
  has admin permission. The entries are exactly those of the descendants reached from
  the node through children that all pass this test, each with its depth as indent:
  nothing below a child that is deleted or lacks the user's admin permission is
  reached through that child.
\<close>

theorem get_editable_children_entries:
  "(e \<in> set (ret_children (get_editable_children hp n user)) \<longrightarrow>
      (\<exists>d c. c \<in> set (descendants n) \<and> \<not> is_deleted (attrs c) \<and> hp (attrs c) user ADMIN
             \<and> e = child_entry_of c d))
   \<and> (e \<in> set (ret_children (get_editable_children hp n user)) \<longleftrightarrow>
        (\<exists>d c. editable_descendant hp user n d c \<and> e = child_entry_of c d))
   \<and> (\<forall>a cs ch i. ch \<in> set cs \<and> (is_deleted (attrs ch) \<or> \<not> hp (attrs ch) user ADMIN) \<longrightarrow>
        get_children hp (Component a cs) user i =
        get_children hp (Component a (filter (\<lambda>x. x \<noteq> ch) cs)) user i)"
proof -
  have iff: "e \<in> set (ret_children (get_editable_children hp n user)) \<longleftrightarrow>
        (\<exists>d c. editable_descendant hp user n d c \<and> e = child_entry_of c d)"
    using get_children_sound [of e hp n user 0] get_children_complete [of hp user n _ _ 0]
    by (auto simp: get_editable_children_def)
  have prune: "get_children hp (Component a cs) user i =
        get_children hp (Component a (filter (\<lambda>x. x \<noteq> ch) cs)) user i"
    if "is_deleted (attrs ch) \<or> \<not> hp (attrs ch) user ADMIN" for a cs ch i
    using that by (induction cs) auto
  show ?thesis using iff editable_descendant_is_descendant [of hp user n] prune by blast
qed
theorem get_editable_children_entries_witness:
  "child_entry_of (Component (example_attrs ''c1'' (Some ''p'')) []) 0
     \<in> set (ret_children (get_editable_children example_has_permission example_tree ''u1''))
   \<and> (\<exists>d c. c \<in> set (descendants example_tree) \<and> \<not> is_deleted (attrs c)
          \<and> example_has_permission (attrs c) ''u1'' ADMIN
          \<and> child_entry_of (Component (example_attrs ''c1'' (Some ''p'')) []) 0 = child_entry_of c d)
   \<and> get_children example_has_permission example_tree ''u1'' 0
       = get_children example_has_permission
           (Component (example_attrs ''p'' None) [Component (example_attrs ''c1'' (Some ''p'')) []])
           ''u1'' 0"
proof -
  let ?c1 = "Component (example_attrs ''c1'' (Some ''p'')) []"
  let ?c2 = "Component (example_attrs ''c2'' (Some ''p''))
               [Component (example_attrs ''g'' (Some ''c2'')) []]"
  note t = get_editable_children_entries
      [of "child_entry_of ?c1 0" example_has_permission example_tree "''u1''"]
  have m: "child_entry_of ?c1 0
     \<in> set (ret_children (get_editable_children example_has_permission example_tree ''u1''))"
    by (simp add: get_editable_children_def example_tree_def example_has_permission_def
        example_attrs_def)
  from t m have ex: "\<exists>d c. c \<in> set (descendants example_tree) \<and> \<not> is_deleted (attrs c)
          \<and> example_has_permission (attrs c) ''u1'' ADMIN
          \<and> child_entry_of ?c1 0 = child_entry_of c d"
    by blast
  have h: "?c2 \<in> set [?c1, ?c2]
     \<and> (is_deleted (attrs ?c2) \<or> \<not> example_has_permission (attrs ?c2) ''u1'' ADMIN)"
    by (simp add: example_has_permission_def example_attrs_def)
  from t h have "get_children example_has_permission
        (Component (example_attrs ''p'' None) [?c1, ?c2]) ''u1'' 0
      = get_children example_has_permission
        (Component (example_attrs ''p'' None) (filter (\<lambda>x. x \<noteq> ?c2) [?c1, ?c2])) ''u1'' 0"
    by blast
  moreover have "filter (\<lambda>x. x \<noteq> ?c2) [?c1, ?c2] = [?c1]"
    by (simp add: example_attrs_def)
  ultimately have "get_children example_has_permission example_tree ''u1'' 0
       = get_children example_has_permission (Component (example_attrs ''p'' None) [?c1]) ''u1'' 0"
    by (simp only: example_tree_def)
  with m ex show ?thesis by blast
qed

subsection \<open>Removing a component\<close>

text \<open>
  C7, as the code has it. When the soft delete succeeds the view returns the URL of
  the node's parent if there is a parent and the actor can view it, and the dashboard
  otherwise; ancestors above the parent are never consulted. This is the nearest
  viewable ancestor whenever the parent is viewable or no ancestor is.
\<close>

theorem component_remove_redirect:
  assumes "remove_node (obj node) auth = Inr removed"
  shows "component_remove remove_node can_view url auth (take 1 ancestors) node =
           (Inr (case ancestors of
                   [] \<Rightarrow> ''/dashboard/''
                 | p # _ \<Rightarrow> if can_view p auth then url p else ''/dashboard/''),
            \<lparr>obj = removed, stored = removed\<rparr>)
       \<and> ((ancestors \<noteq> [] \<and> can_view (hd ancestors) auth)
            \<or> (\<forall>a \<in> set ancestors. \<not> can_view a auth) \<longrightarrow>
          fst (component_remove remove_node can_view url auth (take 1 ancestors) node) =
            Inr (redirect_to url (nearest_viewable_ancestor can_view auth ancestors)))"
proof -
  have r: "component_remove remove_node can_view url auth (take 1 ancestors) node =
           (Inr (case ancestors of
                   [] \<Rightarrow> ''/dashboard/''
                 | p # _ \<Rightarrow> if can_view p auth then url p else ''/dashboard/''),
            \<lparr>obj = removed, stored = removed\<rparr>)"
    using assms
    by (cases ancestors) (simp_all add: component_remove_def parent_node_def save_def)
  have n: "nearest_viewable_ancestor can_view auth ancestors = None"
    if "\<forall>a \<in> set ancestors. \<not> can_view a auth"
    using that by (simp add: nearest_viewable_ancestor_def find_None_iff)
  have h: "nearest_viewable_ancestor can_view auth ancestors = Some (hd ancestors)"
    if "ancestors \<noteq> []" "can_view (hd ancestors) auth"
    using that by (cases ancestors) (simp_all add: nearest_viewable_ancestor_def)
  show ?thesis
  proof (intro conjI impI)
    show "component_remove remove_node can_view url auth (take 1 ancestors) node =
           (Inr (case ancestors of
                   [] \<Rightarrow> ''/dashboard/''
                 | p # _ \<Rightarrow> if can_view p auth then url p else ''/dashboard/''),
            \<lparr>obj = removed, stored = removed\<rparr>)"
      by (rule r)
  next
    assume a: "(ancestors \<noteq> [] \<and> can_view (hd ancestors) auth)
            \<or> (\<forall>a \<in> set ancestors. \<not> can_view a auth)"
    then show "fst (component_remove remove_node can_view url auth (take 1 ancestors) node) =
            Inr (redirect_to url (nearest_viewable_ancestor can_view auth ancestors))"
    proof
      assume "ancestors \<noteq> [] \<and> can_view (hd ancestors) auth"
      then show ?thesis using h r by (cases ancestors) (simp_all add: redirect_to_def)
    next
      assume b: "\<forall>a \<in> set ancestors. \<not> can_view a auth"
      then show ?thesis using n [OF b] r by (cases ancestors) (simp_all add: redirect_to_def)
    qed
  qed
qed

theorem component_remove_redirect_witness:
  "example_remove_node (obj example_component) ''u2''
     = Inr ((obj example_component)\<lparr>is_deleted := True\<rparr>)
   \<and> example_ancestors \<noteq> [] \<and> example_can_view (hd example_ancestors) ''u2''
   \<and> fst (component_remove example_remove_node example_can_view example_url ''u2''
          (take 1 example_ancestors) example_component) = Inr ''/c2/''
   \<and> redirect_to example_url
        (nearest_viewable_ancestor example_can_view ''u2'' example_ancestors) = ''/c2/''"
proof -
  have rm: "example_remove_node (obj example_component) ''u2''
     = Inr ((obj example_component)\<lparr>is_deleted := True\<rparr>)"
    by (simp add: example_remove_node_def)
  have v: "example_ancestors \<noteq> [] \<and> example_can_view (hd example_ancestors) ''u2''"
    by (simp add: example_ancestors_def example_can_view_def)
  note t = component_remove_redirect [where remove_node = example_remove_node
      and node = example_component and auth = "''u2''"
      and removed = "(obj example_component)\<lparr>is_deleted := True\<rparr>"
      and can_view = example_can_view and url = example_url
      and ancestors = example_ancestors, OF rm]
  from t have "fst (component_remove example_remove_node example_can_view example_url ''u2''
          (take 1 example_ancestors) example_component)
        = Inr (case example_ancestors of
                   [] \<Rightarrow> ''/dashboard/''
                 | p # _ \<Rightarrow> if example_can_view p ''u2'' then example_url p else ''/dashboard/'')"
    by simp
  also have "\<dots> = Inr ''/c2/''"
    by (simp add: example_ancestors_def example_can_view_def example_url_def example_attrs_def)
  finally have f: "fst (component_remove example_remove_node example_can_view example_url ''u2''
          (take 1 example_ancestors) example_component) = Inr ''/c2/''" .
  from t v have "fst (component_remove example_remove_node example_can_view example_url ''u2''
          (take 1 example_ancestors) example_component)
        = Inr (redirect_to example_url
                (nearest_viewable_ancestor example_can_view ''u2'' example_ancestors))"
    by blast
  with f have "redirect_to example_url
        (nearest_viewable_ancestor example_can_view ''u2'' example_ancestors) = ''/c2/''"
    by simp
  with rm v f show ?thesis by blast
qed

text \<open>
  A component whose parent the actor cannot view and whose grandparent the actor can:
  the view answers with the dashboard, the nearest viewable ancestor is the grandparent.
\<close>

theorem component_remove_skips_grandparent:
  "fst (component_remove example_remove_node example_can_view example_url ''u1''
          (take 1 example_ancestors) example_component) = Inr ''/dashboard/''
   \<and> redirect_to example_url
        (nearest_viewable_ancestor example_can_view ''u1'' example_ancestors) = ''/p/''"
proof -
  have nv: "\<not> example_can_view (example_attrs ''c2'' (Some ''p'')) ''u1''"
    by (simp add: example_can_view_def example_attrs_def)
  have a: "fst (component_remove example_remove_node example_can_view example_url ''u1''
          (take 1 example_ancestors) example_component) = Inr ''/dashboard/''"
    by (simp add: component_remove_def example_remove_node_def Let_def parent_node_def
        example_ancestors_def nv)
  have "nearest_viewable_ancestor example_can_view ''u1'' example_ancestors
          = Some (example_attrs ''p'' None)"
    by (simp add: nearest_viewable_ancestor_def example_ancestors_def example_can_view_def
        example_attrs_def)
  moreover have "redirect_to example_url (Some (example_attrs ''p'' None)) = ''/p/''"
    by (simp add: redirect_to_def example_url_def example_attrs_def)
  ultimately have "redirect_to example_url
        (nearest_viewable_ancestor example_can_view ''u1'' example_ancestors) = ''/p/''"
    by simp
  with a show ?thesis by blast
qed

subsection \<open>Adding pointers\<close>

lemma add_each_done:
  "add_each ts h = (None, h') \<Longrightarrow>
     \<exists>ks. ts = map Some ks
        \<and> h' = h\<lparr>pointers := pointers h
                    @ map (\<lambda>t. \<lparr>pointer_target = t, pointer_deleted = False\<rparr>) ks\<rparr>"
proof (induction ts arbitrary: h)
  case Nil
  then show ?case by simp
next
  case (Cons t ts)
  from Cons.prems obtain h1 where a: "add_pointer t h = Inr h1" and r: "add_each ts h1 = (None, h')"
    by (auto split: sum.splits)
  from a obtain k where k: "t = Some k"
    and h1: "h1 = h\<lparr>pointers := pointers h @ [\<lparr>pointer_target = k, pointer_deleted = False\<rparr>]\<rparr>"
    by (auto simp: add_pointer_def split: option.splits if_splits)
  from Cons.IH [OF r] obtain ks where ks: "ts = map Some ks"
    and h': "h' = h1\<lparr>pointers := pointers h1
                    @ map (\<lambda>t. \<lparr>pointer_target = t, pointer_deleted = False\<rparr>) ks\<rparr>"
    by blast
  have "t # ts = map Some (k # ks)" using k ks by simp
  moreover have "h' = h\<lparr>pointers := pointers h
                    @ map (\<lambda>t. \<lparr>pointer_target = t, pointer_deleted = False\<rparr>) (k # ks)\<rparr>"
    using h1 h' by simp
  ultimately show ?case by (intro exI [of _ "k # ks"] conjI)
qed

lemma add_each_rejects:
  "\<exists>t \<in> set ks. t = host_id h \<or> t \<in> set (active_targets h) \<or> t \<in> set (tree_relatives h)
     \<Longrightarrow> fst (add_each (map Some ks) h) = Some ValueError"
proof (induction ks arbitrary: h)
  case Nil
  then show ?case by simp
next
  case (Cons k ks)
  show ?case
  proof (cases "add_pointer (Some k) h")
    case (Inl e)
    then have "e = ValueError" by (auto simp: add_pointer_def split: if_splits)
    with Inl show ?thesis by simp
  next
    case (Inr h1)
    then have ok: "\<not> (k = host_id h \<or> k \<in> set (active_targets h) \<or> k \<in> set (tree_relatives h))"
      and h1: "h1 = h\<lparr>pointers := pointers h @ [\<lparr>pointer_target = k, pointer_deleted = False\<rparr>]\<rparr>"
      by (auto simp: add_pointer_def split: if_splits)
    from Cons.prems ok obtain t where t: "t \<in> set ks"
      "t = host_id h \<or> t \<in> set (active_targets h) \<or> t \<in> set (tree_relatives h)"
      by auto
    then have "t = host_id h1 \<or> t \<in> set (active_targets h1) \<or> t \<in> set (tree_relatives h1)"
      using h1 by (auto simp: active_targets_def)
    with t(1) have "fst (add_each (map Some ks) h1) = Some ValueError"
      using Cons.IH [of h1] by blast
    with Inr show ?thesis by simp
  qed
qed

lemma priv_add_pointers_stored:
  "fst (priv_add_pointers node ts) \<noteq> Inr () \<Longrightarrow> stored (snd (priv_add_pointers node ts)) = stored node"
  by (auto simp: priv_add_pointers_def split: prod.splits option.splits)

lemma priv_add_pointers_ok:
  assumes "fst (priv_add_pointers node ts) = Inr ()" "ts \<noteq> []"
  shows "\<exists>ks. ts = map Some ks
        \<and> obj (snd (priv_add_pointers node ts)) = (obj node)\<lparr>pointers := pointers (obj node)
                    @ map (\<lambda>t. \<lparr>pointer_target = t, pointer_deleted = False\<rparr>) ks\<rparr>
        \<and> stored (snd (priv_add_pointers node ts)) = obj (snd (priv_add_pointers node ts))"
proof -
  obtain x h where e: "add_each ts (obj node) = (x, h)" by (cases "add_each ts (obj node)")
  with assms have x: "x = None" by (auto simp: priv_add_pointers_def split: option.splits)
  from add_each_done [OF e [unfolded x]] obtain ks where "ts = map Some ks"
     "h = (obj node)\<lparr>pointers := pointers (obj node)
                    @ map (\<lambda>t. \<lparr>pointer_target = t, pointer_deleted = False\<rparr>) ks\<rparr>"
    by blast
  moreover have "snd (priv_add_pointers node ts) = save (node\<lparr>obj := h\<rparr>)"
    using e x assms(2) by (simp add: priv_add_pointers_def)
  ultimately show ?thesis by (auto simp: save_def)
qed

lemma priv_add_pointers_rejects:
  assumes "\<exists>t \<in> set ks. t = host_id (obj node) \<or> t \<in> set (active_targets (obj node))
              \<or> t \<in> set (tree_relatives (obj node))"
  shows "fst (priv_add_pointers node (map Some ks)) = Inl ValueError"
  using add_each_rejects [OF assms]
  by (auto simp: priv_add_pointers_def split: prod.splits option.splits)
text \<open>
  C3. Batch pointer addition is all-or-nothing for what is persisted. If the view
  succeeds, every submitted key loaded and the stored record holds a new active
  pointer for each target, in order, after the pointers the node had. If it does not
  succeed, the stored record is as it was: no pointer of the batch is persisted. If all
  keys load and some target equals the host, is already actively pointed to, or is an
  ancestor or descendant of the host, the view fails with the bad-request error.
\<close>

theorem add_pointers_all_or_nothing:
  fixes load node request_node_ids
  defines "r \<equiv> add_pointers load request_node_ids node"
  shows "(fst r = Inr () \<longrightarrow>
            (\<exists>ids targets. request_node_ids = Some ids \<and> ids \<noteq> []
               \<and> map load ids = map Some targets
               \<and> stored (snd r) = (obj node)\<lparr>pointers := pointers (obj node)
                    @ map (\<lambda>t. \<lparr>pointer_target = t, pointer_deleted = False\<rparr>) targets\<rparr>))
       \<and> (fst r \<noteq> Inr () \<longrightarrow> stored (snd r) = stored node)
       \<and> (\<forall>ids targets. request_node_ids = Some ids \<and> map load ids = map Some targets
              \<and> (\<exists>t \<in> set targets. t = host_id (obj node) \<or> t \<in> set (active_targets (obj node))
                     \<or> t \<in> set (tree_relatives (obj node)))
            \<longrightarrow> fst r = Inl (HTTPError BAD_REQUEST [] None) \<and> stored (snd r) = stored node)"
proof -
  have bad: "stored (snd r) = stored node" if "fst r \<noteq> Inr ()"
  proof (cases request_node_ids)
    case None
    then show ?thesis by (simp add: r_def add_pointers_def)
  next
    case (Some ids)
    show ?thesis
    proof (cases ids)
      case Nil
      with Some show ?thesis by (simp add: r_def add_pointers_def)
    next
      case (Cons i rest)
      let ?p = "priv_add_pointers node (map load ids)"
      have "fst ?p \<noteq> Inr ()"
        using that Some Cons
        by (auto simp: r_def add_pointers_def Let_def split: prod.splits sum.splits exn.splits)
      then have "stored (snd ?p) = stored node" by (rule priv_add_pointers_stored)
      moreover have "snd r = snd ?p"
        using Some Cons
        by (auto simp: r_def add_pointers_def Let_def split: prod.splits sum.splits exn.splits)
      ultimately show ?thesis by simp
    qed
  qed
  have good: "\<exists>ids targets. request_node_ids = Some ids \<and> ids \<noteq> []
               \<and> map load ids = map Some targets
               \<and> stored (snd r) = (obj node)\<lparr>pointers := pointers (obj node)
                    @ map (\<lambda>t. \<lparr>pointer_target = t, pointer_deleted = False\<rparr>) targets\<rparr>"
    if ok: "fst r = Inr ()"
  proof -
    from ok obtain ids where ids: "request_node_ids = Some ids" "ids \<noteq> []"
      by (auto simp: r_def add_pointers_def split: option.splits list.splits)
    let ?p = "priv_add_pointers node (map load ids)"
    have req: "r = ?p \<or> r = (Inl (HTTPError BAD_REQUEST [] None), snd ?p)"
      using ids
      by (cases ids) (auto simp: r_def add_pointers_def Let_def split: prod.splits sum.splits exn.splits)
    with ok have "r = ?p" by auto
    with ok have "fst ?p = Inr ()" by simp
    from priv_add_pointers_ok [OF this] ids(2) obtain ks where
      "map load ids = map Some ks"
      "obj (snd ?p) = (obj node)\<lparr>pointers := pointers (obj node)
                    @ map (\<lambda>t. \<lparr>pointer_target = t, pointer_deleted = False\<rparr>) ks\<rparr>"
      "stored (snd ?p) = obj (snd ?p)"
      by auto
    with \<open>r = ?p\<close> ids show ?thesis by auto
  qed
  have rej: "fst r = Inl (HTTPError BAD_REQUEST [] None)"
    if "request_node_ids = Some ids" "map load ids = map Some targets"
      "\<exists>t \<in> set targets. t = host_id (obj node) \<or> t \<in> set (active_targets (obj node))
                     \<or> t \<in> set (tree_relatives (obj node))"
    for ids targets
  proof -
    from that(2,3) have ne: "ids \<noteq> []" by auto
    have "fst (priv_add_pointers node (map load ids)) = Inl ValueError"
      using priv_add_pointers_rejects [OF that(3)] that(2) by simp
    then show ?thesis using that(1) ne
      by (cases ids) (auto simp: r_def add_pointers_def Let_def split: prod.splits)
  qed
  show ?thesis using bad good rej by (metis sum.distinct(1))
qed
theorem add_pointers_all_or_nothing_witness:
  "fst (add_pointers example_node_load (Some [''a'', ''b'']) example_host) = Inr ()
   \<and> pointers (stored (snd (add_pointers example_node_load (Some [''a'', ''b'']) example_host)))
       = [\<lparr>pointer_target = ''x'', pointer_deleted = False\<rparr>,
          \<lparr>pointer_target = ''a'', pointer_deleted = False\<rparr>,
          \<lparr>pointer_target = ''b'', pointer_deleted = False\<rparr>]
   \<and> fst (add_pointers example_node_load (Some [''a'', ''h'']) example_host)
       = Inl (HTTPError BAD_REQUEST [] None)
   \<and> stored (snd (add_pointers example_node_load (Some [''a'', ''h'']) example_host))
       = stored example_host"
proof -
  let ?r1 = "add_pointers example_node_load (Some [''a'', ''b'']) example_host"
  let ?r2 = "add_pointers example_node_load (Some [''a'', ''h'']) example_host"
  note t1 = add_pointers_all_or_nothing
      [where load = example_node_load and request_node_ids = "Some [''a'', ''b'']"
         and node = example_host]
  note t2 = add_pointers_all_or_nothing
      [where load = example_node_load and request_node_ids = "Some [''a'', ''h'']"
         and node = example_host]
  have ok: "fst ?r1 = Inr ()"
    by (simp add: add_pointers_def priv_add_pointers_def add_pointer_def active_targets_def
        example_node_load_def example_host_def example_host_obj_def)
  with t1 obtain ids targets where i: "Some [''a'', ''b''] = Some ids"
    and l: "map example_node_load ids = map Some targets"
    and s: "stored (snd ?r1) = (obj example_host)\<lparr>pointers := pointers (obj example_host)
                    @ map (\<lambda>t. \<lparr>pointer_target = t, pointer_deleted = False\<rparr>) targets\<rparr>"
    by blast
  from i have "ids = [''a'', ''b'']" by simp
  with l have "map Some targets = [Some ''a'', Some ''b'']"
    by (simp add: example_node_load_def)
  then have "targets = [''a'', ''b'']"
    by (cases targets; cases "tl targets") auto
  with s have s1: "pointers (stored (snd ?r1))
       = [\<lparr>pointer_target = ''x'', pointer_deleted = False\<rparr>,
          \<lparr>pointer_target = ''a'', pointer_deleted = False\<rparr>,
          \<lparr>pointer_target = ''b'', pointer_deleted = False\<rparr>]"
    by (simp add: example_host_def example_host_obj_def)
  have h: "Some [''a'', ''h''] = Some [''a'', ''h'']
     \<and> map example_node_load [''a'', ''h''] = map Some [''a'', ''h'']
     \<and> (\<exists>t \<in> set [''a'', ''h'']. t = host_id (obj example_host)
            \<or> t \<in> set (active_targets (obj example_host))
            \<or> t \<in> set (tree_relatives (obj example_host)))"
    by (simp add: example_node_load_def example_host_def example_host_obj_def)
  from t2 h have "fst ?r2 = Inl (HTTPError BAD_REQUEST [] None)
      \<and> stored (snd ?r2) = stored example_host"
    by blast
  with ok s1 show ?thesis by blast
qed

subsection \<open>Moving pointers\<close>

lemma pointing_at_None: "pointing_at h t = None \<longleftrightarrow> t \<notin> set (active_targets h)"
  by (auto simp: pointing_at_def active_targets_def find_None_iff)

lemma find_Some_member: "find P xs = Some x \<Longrightarrow> x \<in> set xs \<and> P x"
  by (induction xs) (auto split: if_splits)

lemma pointing_at_Some:
  "pointing_at h t = Some p \<Longrightarrow> p \<in> set (pointers h) \<and> \<not> pointer_deleted p \<and> pointer_target p = t"
  unfolding pointing_at_def by (auto dest: find_Some_member)

lemma active_mark_deleted:
  fixes p :: pointer
  assumes "p \<in> set qs" "\<not> pointer_deleted p"
  shows "map pointer_target (filter (\<lambda>q. \<not> pointer_deleted q) (mark_deleted p qs))
       = remove1 (pointer_target p) (map pointer_target (filter (\<lambda>q. \<not> pointer_deleted q) qs))"
  using assms
proof (induction qs)
  case Nil
  then show ?case by simp
next
  case (Cons q qs)
  show ?case
  proof (cases "q = p")
    case True
    with Cons.prems show ?thesis by simp
  next
    case False
    with Cons.prems have "p \<in> set qs" by simp
    note ih = Cons.IH [OF this Cons.prems(2)]
    show ?thesis
    proof (cases "pointer_deleted q")
      case True
      with False ih show ?thesis by simp
    next
      case nd: False
      with False Cons.prems(2) have "pointer_target q \<noteq> pointer_target p" by (cases q; cases p) auto
      with False nd ih show ?thesis by simp
    qed
  qed
qed

lemma rm_pointer_resolved:
  assumes "pointing_at h t = Some p"
  shows "\<exists>h'. rm_pointer p h = Inr h' \<and> active_targets h' = remove1 t (active_targets h)
           \<and> host_id h' = host_id h \<and> tree_relatives h' = tree_relatives h"
proof -
  from pointing_at_Some [OF assms] have p: "p \<in> set (pointers h)" "\<not> pointer_deleted p"
    and t: "pointer_target p = t" by simp_all
  let ?h = "h\<lparr>pointers := mark_deleted p (pointers h)\<rparr>"
  have "rm_pointer p h = Inr ?h" using p by (simp add: rm_pointer_def)
  moreover have "active_targets ?h = remove1 t (active_targets h)"
    using active_mark_deleted [OF p] t by (simp add: active_targets_def)
  moreover have "host_id ?h = host_id h" "tree_relatives ?h = tree_relatives h" by simp_all
  ultimately show ?thesis by (intro exI [of _ ?h] conjI)
qed
lemma priv_add_pointers_single:
  "priv_add_pointers n [Some t] =
     (if t = host_id (obj n) \<or> t \<in> set (active_targets (obj n)) \<or> t \<in> set (tree_relatives (obj n))
      then (Inl ValueError, n)
      else (Inr (), save (n\<lparr>obj := (obj n)\<lparr>pointers := pointers (obj n)
              @ [\<lparr>pointer_target = t, pointer_deleted = False\<rparr>]\<rparr>\<rparr>)))"
  by (simp add: priv_add_pointers_def add_pointer_def)

lemma active_targets_appended:
  "active_targets (h\<lparr>pointers := pointers h @ [\<lparr>pointer_target = t, pointer_deleted = False\<rparr>]\<rparr>)
     = active_targets h @ [t]"
  by (simp add: active_targets_def)

text \<open>
  C2, as the code has it. For two different known nodes and a known target, with the
  active pointers of \<^verbatim>\<open>from_node\<close> free of duplicates: if \<^verbatim>\<open>from_node\<close> has no active
  pointer to the target the view fails with the bad-request error and the store is
  unchanged; if it has one and \<^verbatim>\<open>to_node\<close> accepts the target, the view succeeds, the
  stored \<^verbatim>\<open>from_node\<close> has no active pointer to the target and the stored \<^verbatim>\<open>to_node\<close>
  has gained exactly one; if it has one and \<^verbatim>\<open>to_node\<close> rejects the target, the view
  fails with the bad-request error after the removal was saved: the stored
  \<^verbatim>\<open>from_node\<close> has lost its pointer and the stored \<^verbatim>\<open>to_node\<close> is as it was.
\<close>

theorem move_pointers_two_steps:
  fixes s from_id to_id target
  assumes known: "from_id \<in> set (known s)" "to_id \<in> set (known s)" "target \<in> set (known s)"
    and diff: "from_id \<noteq> to_id"
    and dist: "distinct (active_targets (obj (node_at s from_id)))"
  defines "r \<equiv> move_pointers (Some from_id) (Some to_id) (Some [target]) s"
    and "from_node \<equiv> obj (node_at s from_id)"
    and "to_node \<equiv> obj (node_at s to_id)"
  shows "(target \<notin> set (active_targets from_node) \<longrightarrow> r = (Inl (HTTPError BAD_REQUEST [] None), s))
       \<and> (target \<in> set (active_targets from_node)
            \<and> \<not> (target = host_id to_node \<or> target \<in> set (active_targets to_node)
                    \<or> target \<in> set (tree_relatives to_node)) \<longrightarrow>
            fst r = Inr ()
            \<and> target \<notin> set (active_targets (stored (node_at (snd r) from_id)))
            \<and> active_targets (stored (node_at (snd r) to_id)) = active_targets to_node @ [target])
       \<and> (target \<in> set (active_targets from_node)
            \<and> (target = host_id to_node \<or> target \<in> set (active_targets to_node)
                    \<or> target \<in> set (tree_relatives to_node)) \<longrightarrow>
            fst r = Inl (HTTPError BAD_REQUEST [] None)
            \<and> target \<notin> set (active_targets (stored (node_at (snd r) from_id)))
            \<and> stored (node_at (snd r) to_id) = stored (node_at s to_id))"
proof -
  have r: "r = (case move_one target from_id to_id s of
                  (Inl e, s') \<Rightarrow> (Inl e, s') | (Inr u, s') \<Rightarrow> (Inr (), s'))"
    using known by (simp add: r_def move_pointers_def node_load_def split: prod.splits sum.splits)
  have none: "r = (Inl (HTTPError BAD_REQUEST [] None), s)"
    if "target \<notin> set (active_targets from_node)"
  proof -
    from that have "pointing_at (obj (node_at s from_id)) target = None"
      by (simp add: pointing_at_None from_node_def)
    then show ?thesis by (simp add: r move_one_def)
  qed
  have some: "\<exists>h'. move_one target from_id to_id s =
        (let s1 = put_node s from_id (save ((node_at s from_id)\<lparr>obj := h'\<rparr>)) in
           case priv_add_pointers (node_at s to_id) [Some target] of
             (Inl e, n) \<Rightarrow> (Inl (except_ValueError e), put_node s1 to_id n)
           | (Inr u, n) \<Rightarrow> (Inr (), put_node s1 to_id n))
        \<and> target \<notin> set (active_targets h')"
    if "target \<in> set (active_targets from_node)"
  proof -
    from that obtain p where p: "pointing_at (obj (node_at s from_id)) target = Some p"
      using pointing_at_None [of "obj (node_at s from_id)" target] by (auto simp: from_node_def)
    from rm_pointer_resolved [OF p] obtain h' where
      h': "rm_pointer p (obj (node_at s from_id)) = Inr h'"
      "active_targets h' = remove1 target (active_targets (obj (node_at s from_id)))"
      by blast
    have "target \<notin> set (active_targets h')" using h'(2) dist by simp
    moreover have "node_at (put_node s from_id (save ((node_at s from_id)\<lparr>obj := h'\<rparr>))) to_id
        = node_at s to_id"
      using diff by (simp add: put_node_def)
    ultimately show ?thesis
      using p h'(1) known(3) by (intro exI [of _ h']) (simp add: move_one_def node_load_def Let_def)
  qed
  have acc: "fst r = Inr ()
            \<and> target \<notin> set (active_targets (stored (node_at (snd r) from_id)))
            \<and> active_targets (stored (node_at (snd r) to_id)) = active_targets to_node @ [target]"
    if a: "target \<in> set (active_targets from_node)"
      and b: "\<not> (target = host_id to_node \<or> target \<in> set (active_targets to_node)
                    \<or> target \<in> set (tree_relatives to_node))"
  proof -
    from some [OF a] obtain h' where m: "move_one target from_id to_id s =
        (let s1 = put_node s from_id (save ((node_at s from_id)\<lparr>obj := h'\<rparr>)) in
           case priv_add_pointers (node_at s to_id) [Some target] of
             (Inl e, n) \<Rightarrow> (Inl (except_ValueError e), put_node s1 to_id n)
           | (Inr u, n) \<Rightarrow> (Inr (), put_node s1 to_id n))"
      and t: "target \<notin> set (active_targets h')" by blast
    show ?thesis
      using b t diff
      by (simp add: r m priv_add_pointers_single to_node_def Let_def put_node_def save_def
          active_targets_appended)
  qed
  have rej: "fst r = Inl (HTTPError BAD_REQUEST [] None)
            \<and> target \<notin> set (active_targets (stored (node_at (snd r) from_id)))
            \<and> stored (node_at (snd r) to_id) = stored (node_at s to_id)"
    if a: "target \<in> set (active_targets from_node)"
      and b: "target = host_id to_node \<or> target \<in> set (active_targets to_node)
                    \<or> target \<in> set (tree_relatives to_node)"
  proof -
    from some [OF a] obtain h' where m: "move_one target from_id to_id s =
        (let s1 = put_node s from_id (save ((node_at s from_id)\<lparr>obj := h'\<rparr>)) in
           case priv_add_pointers (node_at s to_id) [Some target] of
             (Inl e, n) \<Rightarrow> (Inl (except_ValueError e), put_node s1 to_id n)
           | (Inr u, n) \<Rightarrow> (Inr (), put_node s1 to_id n))"
      and t: "target \<notin> set (active_targets h')" by blast
    have "priv_add_pointers (node_at s to_id) [Some target] = (Inl ValueError, node_at s to_id)"
      using b by (simp add: priv_add_pointers_single to_node_def)
    then show ?thesis
      using t diff by (simp add: r m Let_def put_node_def save_def)
  qed
  show ?thesis using none acc rej by blast
qed
lemmas example_store_defs =
  example_store_def example_pointer_host_def active_targets_def

theorem move_pointers_two_steps_witness:
  "move_pointers (Some ''C'') (Some ''A'') (Some [''B'']) example_store
     = (Inl (HTTPError BAD_REQUEST [] None), example_store)
   \<and> fst (move_pointers (Some ''A'') (Some ''D'') (Some [''B'']) example_store) = Inr ()
   \<and> ''B'' \<notin> set (active_targets (stored (node_at
         (snd (move_pointers (Some ''A'') (Some ''D'') (Some [''B'']) example_store)) ''A'')))
   \<and> active_targets (stored (node_at
         (snd (move_pointers (Some ''A'') (Some ''D'') (Some [''B'']) example_store)) ''D''))
       = [''B'']
   \<and> fst (move_pointers (Some ''A'') (Some ''C'') (Some [''B'']) example_store)
       = Inl (HTTPError BAD_REQUEST [] None)
   \<and> stored (node_at
         (snd (move_pointers (Some ''A'') (Some ''C'') (Some [''B'']) example_store)) ''C'')
       = stored (node_at example_store ''C'')"
proof -
  have k: "''A'' \<in> set (known example_store)" "''B'' \<in> set (known example_store)"
    "''C'' \<in> set (known example_store)" "''D'' \<in> set (known example_store)"
    by (simp_all add: example_store_def)
  have dA: "distinct (active_targets (obj (node_at example_store ''A'')))"
    and dC: "distinct (active_targets (obj (node_at example_store ''C'')))"
    by (simp_all add: example_store_defs)
  have ne: "''C'' \<noteq> ''A''" "''A'' \<noteq> ''D''" "''A'' \<noteq> ''C''" by simp_all
  note t1 = move_pointers_two_steps [OF k(3) k(1) k(2) ne(1) dC]
  note t2 = move_pointers_two_steps [OF k(1) k(4) k(2) ne(2) dA]
  note t3 = move_pointers_two_steps [OF k(1) k(3) k(2) ne(3) dA]
  have h1: "''B'' \<notin> set (active_targets (obj (node_at example_store ''C'')))"
    by (simp add: example_store_defs)
  have h2: "''B'' \<in> set (active_targets (obj (node_at example_store ''A'')))"
    by (simp add: example_store_defs)
  have h3: "\<not> (''B'' = host_id (obj (node_at example_store ''D''))
      \<or> ''B'' \<in> set (active_targets (obj (node_at example_store ''D'')))
      \<or> ''B'' \<in> set (tree_relatives (obj (node_at example_store ''D''))))"
    by (simp add: example_store_defs)
  have h4: "''B'' = host_id (obj (node_at example_store ''C''))
      \<or> ''B'' \<in> set (active_targets (obj (node_at example_store ''C'')))
      \<or> ''B'' \<in> set (tree_relatives (obj (node_at example_store ''C'')))"
    by (simp add: example_store_defs)
  have e: "active_targets (obj (node_at example_store ''D'')) @ [''B''] = [''B'']"
    by (simp add: example_store_defs)
  from t1 h1 have "move_pointers (Some ''C'') (Some ''A'') (Some [''B'']) example_store
     = (Inl (HTTPError BAD_REQUEST [] None), example_store)" by blast
  moreover from t2 h2 h3 have "fst (move_pointers (Some ''A'') (Some ''D'') (Some [''B'']) example_store) = Inr ()
   \<and> ''B'' \<notin> set (active_targets (stored (node_at
         (snd (move_pointers (Some ''A'') (Some ''D'') (Some [''B'']) example_store)) ''A'')))
   \<and> active_targets (stored (node_at
         (snd (move_pointers (Some ''A'') (Some ''D'') (Some [''B'']) example_store)) ''D''))
       = active_targets (obj (node_at example_store ''D'')) @ [''B'']" by blast
  moreover from t3 h2 h4 have "fst (move_pointers (Some ''A'') (Some ''C'') (Some [''B'']) example_store)
       = Inl (HTTPError BAD_REQUEST [] None)
   \<and> stored (node_at
         (snd (move_pointers (Some ''A'') (Some ''C'') (Some [''B'']) example_store)) ''C'')
       = stored (node_at example_store ''C'')" by blast
  ultimately show ?thesis using e by simp
qed

text \<open>
  The pointer from \<open>A\<close> to \<open>B\<close> is moved to \<open>C\<close>, a component of \<open>B\<close>: the removal from
  \<open>A\<close> is saved, the addition on \<open>C\<close> is rejected, and the request ends with the
  pointer stored on neither node.
\<close>

theorem move_pointers_leaves_pointer_absent:
  "''B'' \<in> set (active_targets (stored (node_at example_store ''A'')))
   \<and> fst (move_pointers (Some ''A'') (Some ''C'') (Some [''B'']) example_store)
       = Inl (HTTPError BAD_REQUEST [] None)
   \<and> ''B'' \<notin> set (active_targets (stored (node_at
         (snd (move_pointers (Some ''A'') (Some ''C'') (Some [''B'']) example_store)) ''A'')))
   \<and> ''B'' \<notin> set (active_targets (stored (node_at
         (snd (move_pointers (Some ''A'') (Some ''C'') (Some [''B'']) example_store)) ''C'')))"
  by (simp add: move_pointers_def move_one_def node_load_def pointing_at_def rm_pointer_def
      priv_add_pointers_def add_pointer_def put_node_def save_def example_store_defs)

subsection \<open>Permissions and privacy\<close>




subsection \<open>Forking\<close>

text \<open>
  C5. Whenever the disk-saving mode is active, \<^verbatim>\<open>node_fork_page\<close> fails with the
  disk-saving error whatever the node and the actor's permission, and no node has been
  created. When it is not active and the actor lacks read access, the view fails with
  the forbidden error that redirects to the node, and no node has been created.
  Otherwise it returns the URL of the new fork, which is the one node tree created.
\<close>

theorem node_fork_page_outcomes:
  fixes node :: component
  defines "fork \<equiv> \<lambda>new_key actor. fork_component new_key actor node"
  shows "(disk_saving_mode \<longrightarrow>
            node_fork_page disk_saving_mode effective new_key url actor node created
              = (Inl DiskSavingModeError, created))
       \<and> (\<not> disk_saving_mode \<and> level effective < level (Some READ) \<longrightarrow>
            node_fork_page disk_saving_mode effective new_key url actor node created
              = (Inl (HTTPError FORBIDDEN [] (Some (url (attrs node)))), created))
       \<and> (\<not> disk_saving_mode \<and> level (Some READ) \<le> level effective \<longrightarrow>
            node_fork_page disk_saving_mode effective new_key url actor node created
              = (Inr (url (attrs (fork new_key actor))), created @ [fork new_key actor]))"
  by (auto simp: node_fork_page_def http_error_if_disk_saving_mode_def node_fork_page_body_def
      fork_node_def fork_def Let_def)

theorem node_fork_page_outcomes_witness:
  "node_fork_page True (Some ADMIN) example_new_key example_url ''u1'' example_tree []
     = (Inl DiskSavingModeError, [])
   \<and> node_fork_page False None example_new_key example_url ''u3'' example_tree []
     = (Inl (HTTPError FORBIDDEN [] (Some ''/p/'')), [])
   \<and> fst (node_fork_page False (Some READ) example_new_key example_url ''u3'' example_tree [])
     = Inr ''/p-fork/''"
proof -
  note t = node_fork_page_outcomes [where new_key = example_new_key and url = example_url
      and node = example_tree and created = "[]"]
  have a: "node_fork_page True (Some ADMIN) example_new_key example_url ''u1'' example_tree []
     = (Inl DiskSavingModeError, [])"
    using t [of True "Some ADMIN" "''u1''"] by blast
  have h: "\<not> False \<and> level None < level (Some READ)" by simp
  have u: "url (attrs example_tree) = url (example_attrs ''p'' None)" for url :: "node \<Rightarrow> string"
    by (simp add: example_tree_def)
  have "node_fork_page False None example_new_key example_url ''u3'' example_tree []
     = (Inl (HTTPError FORBIDDEN [] (Some (example_url (attrs example_tree)))), [])"
    using t [of False None "''u3''"] h by blast
  then have b: "node_fork_page False None example_new_key example_url ''u3'' example_tree []
     = (Inl (HTTPError FORBIDDEN [] (Some ''/p/'')), [])"
    by (simp add: u example_url_def example_attrs_def)
  have h2: "\<not> False \<and> level (Some READ) \<le> level (Some READ)" by simp
  have "node_fork_page False (Some READ) example_new_key example_url ''u3'' example_tree []
     = (Inr (example_url (attrs (fork_component example_new_key ''u3'' example_tree))),
        [] @ [fork_component example_new_key ''u3'' example_tree])"
    using t [of False "Some READ" "''u3''"] h2 by blast
  moreover have "example_url (attrs (fork_component example_new_key ''u3'' example_tree)) = ''/p-fork/''"
    by (simp add: example_tree_def example_url_def example_attrs_def example_new_key_def)
  ultimately have c: "fst (node_fork_page False (Some READ) example_new_key example_url ''u3''
      example_tree []) = Inr ''/p-fork/''"
    by simp
  from a b c show ?thesis by blast
qed

subsection \<open>Updating fields\<close>

lemma getattr_field_names: "key \<in> set field_names \<Longrightarrow> getattr key n \<noteq> None"
  by (auto simp: field_names_def getattr_def attributes_def)

lemma getattr_setattr_other:
  "key \<noteq> k \<or> key \<notin> set WRITABLE_WHITELIST \<Longrightarrow> getattr key (setattr k v n) = getattr key n"
  by (auto simp: setattr_def getattr_def attributes_def WRITABLE_WHITELIST_def)

lemma apply_changes_frame:
  "apply_changes vt chs n = Inr n' \<Longrightarrow>
     key \<notin> fst ` set chs \<or> key \<notin> set WRITABLE_WHITELIST \<Longrightarrow> getattr key n' = getattr key n"
proof (induction vt chs n rule: apply_changes.induct)
  case (1 vt n)
  then show ?case by simp
next
  case (2 vt k v rest n)
  from "2.prems"(1) have ok: "\<not> (k = ''title'' \<and> \<not> vt v)"
    and r: "apply_changes vt rest (setattr k v n) = Inr n'"
    by (auto split: if_splits)
  from "2.prems"(2) have a: "key \<notin> fst ` set rest \<or> key \<notin> set WRITABLE_WHITELIST"
    and b: "key \<noteq> k \<or> key \<notin> set WRITABLE_WHITELIST" by auto
  from "2.IH" [OF ok r a] getattr_setattr_other [OF b] show ?case by simp
qed

lemma updated_fields_keys:
  "updated_fields n keys = Inr d \<Longrightarrow>
     map fst d = keys
     \<and> (\<forall>(key, v) \<in> set d. if key = ''tags'' then v = Texts (tags n) else getattr key n = Some v)"
proof (induction keys arbitrary: d)
  case Nil
  then show ?case by simp
next
  case (Cons key keys)
  then show ?case by (auto split: if_splits option.splits sum.splits)
qed

text \<open>
  C6. For an actor with write permission: a request that names a field outside the
  whitelist (title, category, description) fails with the HTTP 400 error whose short
  message names that field, and the node is unchanged. The whitelist holds no
  permission field (contributors), no tree link (child keys, parent) and no audit
  field (logs, date_modified). On success no field outside the whitelist has changed
  on the object; the names the view returns are exactly the names of the fields whose
  stored value changed, logs and date_modified left out as the view leaves them out;
  each is returned with its new value (the tags as texts); and when the object was
  unchanged before the call, every returned name is a whitelisted field of the request.
\<close>

theorem update_node_whitelist:
  fixes node :: "audited_node loaded" and effective strip_html validate_title request_json
  assumes can_write: "level (Some WRITE) \<le> level effective"
  defines "r \<equiv> update_node effective strip_html validate_title request_json node"
  shows "(\<not> set (map fst request_json) \<subseteq> set WRITABLE_WHITELIST \<longrightarrow>
            (\<exists>key reason. key \<in> set (map fst request_json) \<and> key \<notin> set WRITABLE_WHITELIST
               \<and> r = (Inl (HTTPError 400
                         [(''message_short'',
                           ''Failed to update attribute '' @ [CHR 0x27] @ key @ [CHR 0x27]),
                          (''message_long'', reason)] None), node)))
       \<and> set [''contributors'', ''node_ids'', ''parent_id'', ''logs'', ''date_modified'']
            \<inter> set WRITABLE_WHITELIST = {}
       \<and> (\<forall>updated. fst r = Inr updated \<longrightarrow>
            (\<forall>key. key \<notin> set WRITABLE_WHITELIST \<longrightarrow>
                getattr key (stored (snd r)) = getattr key (obj node))
            \<and> map fst updated =
                filter (\<lambda>key. getattr key (stored (snd r)) \<noteq> getattr key (stored node)
                             \<and> key \<noteq> ''logs'' \<and> key \<noteq> ''date_modified'') field_names
            \<and> (\<forall>(key, v) \<in> set updated.
                  if key = ''tags'' then v = Texts (tags (stored (snd r)))
                  else getattr key (stored (snd r)) = Some v)
            \<and> (obj node = stored node \<longrightarrow>
                  set (map fst updated) \<subseteq> set WRITABLE_WHITELIST \<inter> set (map fst request_json)))"
proof -
  let ?data = "map (\<lambda>(key, v). (key, strip_html v)) request_json"
  have keys: "map fst ?data = map fst request_json" by (induction request_json) auto
  have r: "r = update_node_body strip_html validate_title request_json node"
    using can_write by (simp add: r_def update_node_def must_have_permission_def require_def)
  have bad: "\<exists>key reason. key \<in> set (map fst request_json) \<and> key \<notin> set WRITABLE_WHITELIST
               \<and> r = (Inl (HTTPError 400
                         [(''message_short'',
                           ''Failed to update attribute '' @ [CHR 0x27] @ key @ [CHR 0x27]),
                          (''message_long'', reason)] None), node)"
    if "\<not> set (map fst request_json) \<subseteq> set WRITABLE_WHITELIST"
  proof -
    from that have "find (\<lambda>key. key \<notin> set WRITABLE_WHITELIST) (map fst ?data) \<noteq> None"
      unfolding keys by (auto simp: find_None_iff)
    then obtain key where f: "find (\<lambda>key. key \<notin> set WRITABLE_WHITELIST) (map fst ?data) = Some key"
      by auto
    from find_Some_member [OF f] have k: "key \<in> set (map fst request_json)"
      "key \<notin> set WRITABLE_WHITELIST" unfolding keys by auto
    have "update validate_title ?data node = Inl (NodeUpdateError key ''Key is not writable'')"
      using f by (simp add: update_def)
    then have "r = (Inl (HTTPError 400
                         [(''message_short'',
                           ''Failed to update attribute '' @ [CHR 0x27] @ key @ [CHR 0x27]),
                          (''message_long'', ''Key is not writable'')] None), node)"
      by (simp add: r update_node_body_def)
    with k show ?thesis by blast
  qed
  have wl: "set [''contributors'', ''node_ids'', ''parent_id'', ''logs'', ''date_modified'']
            \<inter> set WRITABLE_WHITELIST = {}"
    by (simp add: WRITABLE_WHITELIST_def)
  have good: "(\<forall>key. key \<notin> set WRITABLE_WHITELIST \<longrightarrow>
                getattr key (stored (snd r)) = getattr key (obj node))
            \<and> map fst updated =
                filter (\<lambda>key. getattr key (stored (snd r)) \<noteq> getattr key (stored node)
                             \<and> key \<noteq> ''logs'' \<and> key \<noteq> ''date_modified'') field_names
            \<and> (\<forall>(key, v) \<in> set updated.
                  if key = ''tags'' then v = Texts (tags (stored (snd r)))
                  else getattr key (stored (snd r)) = Some v)
            \<and> (obj node = stored node \<longrightarrow>
                  set (map fst updated) \<subseteq> set WRITABLE_WHITELIST \<inter> set (map fst request_json))"
    if ok: "fst r = Inr updated" for updated
  proof -
    from ok obtain node' names where u: "update validate_title ?data node = Inr (node', names)"
      by (auto simp: r update_node_body_def Let_def split: sum.splits exn.splits)
    then obtain n' where a: "apply_changes validate_title ?data (obj node) = Inr n'"
      and node': "node' = node\<lparr>obj := n'\<rparr>"
      and names: "names = changed_fields n' (stored node)"
      by (auto simp: update_def split: option.splits sum.splits)
    from ok u have uf: "updated_fields (obj node')
            (filter (\<lambda>key. key \<noteq> ''logs'' \<and> key \<noteq> ''date_modified'') names) = Inr updated"
      and sr: "snd r = save node'"
      by (auto simp: r update_node_body_def Let_def split: sum.splits)
    have st: "stored (snd r) = n'" and ob: "obj node' = n'"
      by (simp_all add: sr node' save_def)
    have frame: "getattr key n' = getattr key (obj node)"
      if "key \<notin> fst ` set ?data \<or> key \<notin> set WRITABLE_WHITELIST" for key
      using apply_changes_frame [OF a that] .
    from updated_fields_keys [OF uf]
    have k1: "map fst updated = filter (\<lambda>key. key \<noteq> ''logs'' \<and> key \<noteq> ''date_modified'') names"
      and k2: "\<forall>(key, v) \<in> set updated.
                 if key = ''tags'' then v = Texts (tags n') else getattr key n' = Some v"
      unfolding ob by simp_all
    have s1: "\<forall>key. key \<notin> set WRITABLE_WHITELIST \<longrightarrow>
                getattr key (stored (snd r)) = getattr key (obj node)"
      unfolding st using frame by blast
    have s2: "map fst updated =
                filter (\<lambda>key. getattr key (stored (snd r)) \<noteq> getattr key (stored node)
                             \<and> key \<noteq> ''logs'' \<and> key \<noteq> ''date_modified'') field_names"
      unfolding st k1 names changed_fields_def by (simp add: conj_commute)
    have s3: "\<forall>(key, v) \<in> set updated.
                  if key = ''tags'' then v = Texts (tags (stored (snd r)))
                  else getattr key (stored (snd r)) = Some v"
      unfolding st by (rule k2)
    have s4: "set (map fst updated) \<subseteq> set WRITABLE_WHITELIST \<inter> set (map fst request_json)"
      if clean: "obj node = stored node"
    proof
      fix key assume "key \<in> set (map fst updated)"
      then have "getattr key n' \<noteq> getattr key (obj node)"
        unfolding s2 st clean by simp
      with frame [of key] have "key \<in> fst ` set ?data \<and> key \<in> set WRITABLE_WHITELIST" by blast
      moreover have "fst ` set ?data = set (map fst request_json)" using keys by (metis set_map)
      ultimately show "key \<in> set WRITABLE_WHITELIST \<inter> set (map fst request_json)" by simp
    qed
    from s1 s2 s3 s4 show ?thesis by blast
  qed
  show ?thesis using bad wl good by blast
qed

theorem update_node_whitelist_witness:
  "(\<exists>reason.
      update_node (Some WRITE) example_strip_html example_validate_title
        [(''title'', ''New''), (''contributors'', ''u9'')] example_audited
      = (Inl (HTTPError 400
                [(''message_short'',
                  ''Failed to update attribute '' @ [CHR 0x27] @ ''contributors'' @ [CHR 0x27]),
                 (''message_long'', reason)] None), example_audited))
   \<and> fst (update_node (Some WRITE) example_strip_html example_validate_title
        [(''title'', ''New''), (''category'', ''project'')] example_audited)
       = Inr [(''title'', Text ''New'')]
   \<and> getattr ''title'' (stored (snd (update_node (Some WRITE) example_strip_html
        example_validate_title [(''title'', ''New''), (''category'', ''project'')]
        example_audited))) = Some (Text ''New'')
   \<and> getattr ''contributors'' (stored (snd (update_node (Some WRITE) example_strip_html
        example_validate_title [(''title'', ''New''), (''category'', ''project'')]
        example_audited))) = Some (Texts [''u1''])"
proof -
  let ?r1 = "update_node (Some WRITE) example_strip_html example_validate_title
        [(''title'', ''New''), (''contributors'', ''u9'')] example_audited"
  let ?r2 = "update_node (Some WRITE) example_strip_html example_validate_title
        [(''title'', ''New''), (''category'', ''project'')] example_audited"
  have w: "level (Some WRITE) \<le> level (Some WRITE)" by simp
  note t1 = update_node_whitelist [OF w, where strip_html = example_strip_html
      and validate_title = example_validate_title and node = example_audited
      and request_json = "[(''title'', ''New''), (''contributors'', ''u9'')]"]
  note t2 = update_node_whitelist [OF w, where strip_html = example_strip_html
      and validate_title = example_validate_title and node = example_audited
      and request_json = "[(''title'', ''New''), (''category'', ''project'')]"]
  have "\<not> set (map fst [(''title'', ''New''), (''contributors'', ''u9'')]) \<subseteq> set WRITABLE_WHITELIST"
    by (simp add: WRITABLE_WHITELIST_def)
  from t1 [THEN conjunct1, THEN mp, OF this] obtain key reason where
    k: "key \<in> set (map fst [(''title'', ''New''), (''contributors'', ''u9'')])"
       "key \<notin> set WRITABLE_WHITELIST"
    and r1: "?r1 = (Inl (HTTPError 400
                [(''message_short'', ''Failed to update attribute '' @ [CHR 0x27] @ key @ [CHR 0x27]),
                 (''message_long'', reason)] None), example_audited)"
    by blast
  from k have "key = ''contributors''" by (auto simp: WRITABLE_WHITELIST_def)
  with r1 have a: "\<exists>reason. ?r1 = (Inl (HTTPError 400
                [(''message_short'',
                  ''Failed to update attribute '' @ [CHR 0x27] @ ''contributors'' @ [CHR 0x27]),
                 (''message_long'', reason)] None), example_audited)"
    by blast
  have ok: "fst ?r2 = Inr [(''title'', Text ''New'')]"
    by (simp add: update_node_def must_have_permission_def require_def update_node_body_def
        update_def WRITABLE_WHITELIST_def changed_fields_def field_names_def getattr_def
        attributes_def setattr_def example_audited_def example_audited_obj_def
        example_strip_html_def example_validate_title_def)
  note p = t2 [THEN conjunct2, THEN conjunct2, THEN spec, THEN mp, OF ok]
  note frame = p [THEN conjunct1, THEN spec, THEN mp]
  note vals = p [THEN conjunct2, THEN conjunct2, THEN conjunct1]
  have "''contributors'' \<notin> set WRITABLE_WHITELIST" by (simp add: WRITABLE_WHITELIST_def)
  from frame [OF this] have c: "getattr ''contributors'' (stored (snd ?r2)) = Some (Texts [''u1''])"
    by (simp add: getattr_def attributes_def example_audited_def example_audited_obj_def)
  from vals have t: "getattr ''title'' (stored (snd ?r2)) = Some (Text ''New'')" by simp
  from a ok t c show ?thesis by (intro conjI)
qed

subsection \<open>Searching nodes\<close>






end
